theory Spec2Isabelle
  imports Complex_Main "HOL-Library.Multiset"
begin

section \<open>Values, exceptions and the network\<close>

text \<open>
  The script is dynamically typed: a cell of the input table and the result of a probe are
  Python objects. \<open>PyInt\<close> is an \<open>int\<close>, \<open>PyStr\<close> a \<open>str\<close> (its characters
  are code points below 256), \<open>PyNone\<close> is \<open>None\<close> and \<open>PyNaN\<close> is the float that
  pandas puts in an empty cell.
\<close>

datatype pyobj = PyInt int | PyStr string | PyNone | PyNaN

text \<open>
  An exception is known by the name of its type and by where that type stands in the
  hierarchy: it derives from \<open>requests.RequestException\<close> (and so from \<open>Exception\<close>), or
  from \<open>Exception\<close> but not from \<open>RequestException\<close>, or from \<open>BaseException\<close> only
  (as \<open>SystemExit\<close> and \<open>KeyboardInterrupt\<close> do).
\<close>

datatype exn_class = RequestException | OtherException | NonException

datatype exn = Exn (type_name: string) (exn_class: exn_class)

text \<open>What \<open>except requests.RequestException\<close> and \<open>except Exception\<close> catch.\<close>

definition is_request_exception :: "exn \<Rightarrow> bool" where
  "is_request_exception e = (exn_class e = RequestException)"

definition is_exception :: "exn \<Rightarrow> bool" where
  "is_exception e = (exn_class e \<noteq> NonException)"

datatype http_method = HEAD | GET

record request =
  r_method :: http_method
  r_url :: string
  r_allow_redirects :: bool
  r_timeout :: int
  r_stream :: bool

datatype event = Request request | Sleep rat

datatype response = Status int | Raises exn

text \<open>
  The network answers a request with a status or raises; its answer may depend on everything
  the probe has done so far.
\<close>

type_synonym network = "event list \<Rightarrow> request \<Rightarrow> response"

definition DEFAULT_TIMEOUT :: int where
  "DEFAULT_TIMEOUT = 10"

definition MAX_WORKERS :: int where
  "MAX_WORKERS = 24"

definition RETRIES :: nat where
  "RETRIES = 2"

section \<open>check_one\<close>

text \<open>
  \<open>str.isspace\<close> on a code point below 256: tab to carriage return, the four separators
  28 to 31, the space, NEL (133) and the no-break space (160).
\<close>

definition isspace :: "char \<Rightarrow> bool" where
  "isspace c = (let n = (of_char c :: nat) in
     (9 \<le> n \<and> n \<le> 13) \<or> (28 \<le> n \<and> n \<le> 32) \<or> n = 133 \<or> n = 160)"

definition strip :: "string \<Rightarrow> string" where
  "strip s = rev (dropWhile isspace (rev (dropWhile isspace s)))"

definition head_request :: "string \<Rightarrow> int \<Rightarrow> request" where
  "head_request url timeout =
     \<lparr>r_method = HEAD, r_url = url, r_allow_redirects = True, r_timeout = timeout,
      r_stream = False\<rparr>"

definition get_request :: "string \<Rightarrow> int \<Rightarrow> request" where
  "get_request url timeout =
     \<lparr>r_method = GET, r_url = url, r_allow_redirects = True, r_timeout = timeout,
      r_stream = True\<rparr>"

text \<open>The condition of line 25 under which the HEAD answer is replaced by a GET.\<close>

definition needs_get :: "int \<Rightarrow> bool" where
  "needs_get status_code = (status_code = 405 \<or> (status_code \<ge> 400 \<and> status_code \<noteq> 404))"

text \<open>
  The body of the \<open>try\<close> (lines 24 to 27): the status it returns or the exception it
  raises, and the events so far.
\<close>

definition try_body :: "network \<Rightarrow> string \<Rightarrow> int \<Rightarrow> event list \<Rightarrow> (exn + int) \<times> event list" where
  "try_body net url timeout tr =
     (case net tr (head_request url timeout) of
        Raises e \<Rightarrow> (Inl e, tr @ [Request (head_request url timeout)])
      | Status h \<Rightarrow>
          if needs_get h then
            (case net (tr @ [Request (head_request url timeout)]) (get_request url timeout) of
               Raises e \<Rightarrow>
                 (Inl e, tr @ [Request (head_request url timeout), Request (get_request url timeout)])
             | Status g \<Rightarrow>
                 (Inr g, tr @ [Request (head_request url timeout), Request (get_request url timeout)]))
          else (Inr h, tr @ [Request (head_request url timeout)]))"

text \<open>
  The \<open>for\<close> loop of lines 21 to 33 over the attempts still to make. An exception that is
  not a \<open>RequestException\<close> leaves the function (\<open>Inl\<close>); running out of attempts falls
  off the end of the function, which returns \<open>None\<close>.
\<close>

fun retry_loop :: "network \<Rightarrow> string \<Rightarrow> int \<Rightarrow> nat list \<Rightarrow> event list \<Rightarrow> (exn + pyobj) \<times> event list" where
  "retry_loop net url timeout [] tr = (Inr PyNone, tr)"
| "retry_loop net url timeout (attempt # rest) tr =
     (case try_body net url timeout tr of
        (Inr status_code, tr') \<Rightarrow> (Inr (PyInt status_code), tr')
      | (Inl e, tr') \<Rightarrow>
          if is_request_exception e then
            (if attempt < RETRIES then
               retry_loop net url timeout rest (tr' @ [Sleep ((1 / 2) * (of_nat attempt + 1))])
             else (Inr (PyStr (''error: '' @ type_name e)), tr'))
          else (Inl e, tr'))"

definition check_one :: "network \<Rightarrow> pyobj \<Rightarrow> int \<Rightarrow> (exn + pyobj) \<times> event list" where
  "check_one net url timeout =
     (case url of
        PyStr s \<Rightarrow>
          if strip s = [] then (Inr (PyStr ''empty''), [])
          else retry_loop net (strip s) timeout [0..<RETRIES + 1] []
      | _ \<Rightarrow> (Inr (PyStr ''empty''), []))"

section \<open>is_broken\<close>

definition is_broken :: "pyobj \<Rightarrow> bool" where
  "is_broken s = (case s of PyInt n \<Rightarrow> n \<ge> 400 | _ \<Rightarrow> True)"

section \<open>The dispatcher\<close>

text \<open>
  A task is what the pool runs for one URL: it returns a value or raises, and leaves the
  events of its network calls. The task of \<open>main\<close> is \<open>check_one\<close>; each task has its
  own index, so that the network may treat each one differently.
\<close>

type_synonym task = "nat \<Rightarrow> pyobj \<Rightarrow> (exn + pyobj) \<times> event list"

text \<open>Line 52: one future per URL, each with the index it is keyed to.\<close>

definition submit_all :: "task \<Rightarrow> pyobj list \<Rightarrow> (nat \<times> (exn + pyobj) \<times> event list) list" where
  "submit_all task urls = map (\<lambda>(i, url). (i, task i url)) (enumerate 0 urls)"

text \<open>
  \<open>as_completed\<close> yields every pending future once, in the order in which they finish. The
  order is the scheduler's: \<open>picks\<close> says which of the futures still pending finishes next
  (when the picks run out, the remaining ones finish in the order of submission).
\<close>

fun as_completed :: "nat list \<Rightarrow> 'a list \<Rightarrow> 'a list" where
  "as_completed picks [] = []"
| "as_completed [] (f # fs) = f # fs"
| "as_completed (k # picks) (f # fs) =
     (f # fs) ! (k mod Suc (length fs))
       # as_completed picks (take (k mod Suc (length fs)) (f # fs)
                              @ drop (Suc (k mod Suc (length fs))) (f # fs))"

text \<open>
  Lines 55 to 58: the result of a future, or the label of the exception it raised when
  \<open>except Exception\<close> catches it; any other exception goes on.
\<close>

definition future_status :: "exn + pyobj \<Rightarrow> exn + pyobj" where
  "future_status r =
     (case r of
        Inr status \<Rightarrow> Inr status
      | Inl e \<Rightarrow> if is_exception e then Inr (PyStr (''error: '' @ type_name e)) else Inl e)"

definition completed :: "task \<Rightarrow> pyobj list \<Rightarrow> nat list \<Rightarrow> (nat \<times> (exn + pyobj) \<times> event list) list" where
  "completed task urls picks = as_completed picks (submit_all task urls)"

text \<open>
  The loop of lines 53 to 59 over the futures in their order of completion, appending to
  \<open>results\<close>; an exception that is not caught ends the loop.
\<close>

fun collect :: "(nat \<times> (exn + pyobj) \<times> event list) list \<Rightarrow> (nat \<times> pyobj) list \<Rightarrow> exn + (nat \<times> pyobj) list" where
  "collect [] results = Inr results"
| "collect ((i, r, tr) # futures) results =
     (case future_status r of
        Inr status \<Rightarrow> collect futures (results @ [(i, status)])
      | Inl e \<Rightarrow> Inl e)"

text \<open>
  Lines 50 to 59: the list \<open>results\<close>, in the order of completion, or the exception that
  leaves the \<open>with\<close> block.
\<close>

definition dispatch :: "task \<Rightarrow> pyobj list \<Rightarrow> nat list \<Rightarrow> exn + (nat \<times> pyobj) list" where
  "dispatch task urls picks = collect (completed task urls picks) []"

text \<open>Line 62: the dictionary built from \<open>results\<close>; a later pair overwrites an earlier one.\<close>

definition status_map :: "(nat \<times> pyobj) list \<Rightarrow> (nat \<rightharpoonup> pyobj)" where
  "status_map results = fold (\<lambda>(i, s) m. m(i \<mapsto> s)) results Map.empty"

text \<open>
  Lines 50 to 62 together: the dictionary, when no exception left the loop. This is what the
  specification calls the ResultSet.
\<close>

definition result_set :: "exn + (nat \<times> pyobj) list \<Rightarrow> (nat \<rightharpoonup> pyobj) option" where
  "result_set d = (case d of Inr results \<Rightarrow> Some (status_map results) | Inl e \<Rightarrow> None)"

text \<open>Line 70: \<open>status_map.get(i, "error: missing")\<close>.\<close>

definition image_status :: "(nat \<rightharpoonup> pyobj) \<Rightarrow> nat \<Rightarrow> pyobj" where
  "image_status m i = (case m i of Some s \<Rightarrow> s | None \<Rightarrow> PyStr ''error: missing'')"

section \<open>The table\<close>

text \<open>
  A data frame as \<open>read_csv\<close> returns it: the column names and the rows, each row a list
  of cells in the order of the columns; its index is \<open>0, 1, ...\<close>.
\<close>

record dataframe =
  columns :: "string list"
  rows :: "pyobj list list"


fun index_of :: "'a \<Rightarrow> 'a list \<Rightarrow> nat option" where
  "index_of c [] = None"
| "index_of c (x # xs) = (if x = c then Some 0 else map_option Suc (index_of c xs))"

text \<open>\<open>df[c].tolist()\<close>; \<open>None\<close> is the \<open>KeyError\<close> of a missing column.\<close>

definition getitem :: "dataframe \<Rightarrow> string \<Rightarrow> pyobj list option" where
  "getitem df c = map_option (\<lambda>k. map (\<lambda>r. r ! k) (rows df)) (index_of c (columns df))"

text \<open>
  \<open>df[c] = vals\<close>: a column of that name gets the new values where it stands, otherwise
  the column is added after the last one.
\<close>

definition setitem :: "dataframe \<Rightarrow> string \<Rightarrow> pyobj list \<Rightarrow> dataframe" where
  "setitem df c vals =
     (case index_of c (columns df) of
        Some k \<Rightarrow> \<lparr>columns = columns df, rows = map (\<lambda>(r, v). r[k := v]) (zip (rows df) vals)\<rparr>
      | None \<Rightarrow> \<lparr>columns = columns df @ [c], rows = map (\<lambda>(r, v). r @ [v]) (zip (rows df) vals)\<rparr>)"

text \<open>
  \<open>df[key]\<close> with the series that \<open>apply(is_broken)\<close> returns: the rows at which it is
  true, in their order. An empty series is not a series of booleans; it is then read as a
  list of column names, an empty one, and the result has no column.
\<close>

definition select_rows :: "dataframe \<Rightarrow> bool list \<Rightarrow> dataframe" where
  "select_rows df keep =
     (if keep = [] then \<lparr>columns = [], rows = map (\<lambda>r. []) (rows df)\<rparr>
      else \<lparr>columns = columns df, rows = map fst (filter snd (zip (rows df) keep))\<rparr>)"

section \<open>Text\<close>

fun dec :: "nat \<Rightarrow> string" where
  "dec n = (if n < 10 then [''0123456789'' ! n] else dec (n div 10) @ [''0123456789'' ! (n mod 10)])"

definition hex2 :: "nat \<Rightarrow> string" where
  "hex2 n = [''0123456789abcdef'' ! (n div 16 mod 16), ''0123456789abcdef'' ! (n mod 16)]"

text \<open>\<open>repr\<close> of a \<open>str\<close> of code points below 256, and of a list of them.\<close>

definition repr_char :: "char \<Rightarrow> char \<Rightarrow> string" where
  "repr_char quote c = (let n = (of_char c :: nat) in
     if c = quote \<or> n = 92 then [CHR 0x5C, c]
     else if n = 9 then [CHR 0x5C, CHR ''t'']
     else if n = 10 then [CHR 0x5C, CHR ''n'']
     else if n = 13 then [CHR 0x5C, CHR ''r'']
     else if n < 32 \<or> (127 \<le> n \<and> n \<le> 160) \<or> n = 173 then [CHR 0x5C, CHR ''x''] @ hex2 n
     else [c])"

definition repr_str :: "string \<Rightarrow> string" where
  "repr_str s =
     (let quote = (if CHR 0x27 \<in> set s \<and> CHR 0x22 \<notin> set s then CHR 0x22 else CHR 0x27)
      in [quote] @ concat (map (repr_char quote) s) @ [quote])"

fun join :: "string \<Rightarrow> string list \<Rightarrow> string" where
  "join sep [] = []"
| "join sep [x] = x"
| "join sep (x # y # ys) = x @ sep @ join sep (y # ys)"

definition repr_list :: "string list \<Rightarrow> string" where
  "repr_list xs = ''['' @ join '', '' (map repr_str xs) @ '']''"

text \<open>\<open>os.path.dirname\<close>.\<close>

definition dirname :: "string \<Rightarrow> string" where
  "dirname p =
     (let head = rev (dropWhile (\<lambda>c. c \<noteq> CHR ''/'') (rev p))
      in if head \<noteq> [] \<and> \<not> list_all (\<lambda>c. c = CHR ''/'') head
         then rev (dropWhile (\<lambda>c. c = CHR ''/'') (rev head)) else head)"

section \<open>main\<close>

record args =
  args_input :: string
  args_output :: string
  args_column :: string
  args_workers :: int
  args_timeout :: int

datatype ending = Normal | SystemExit string | Uncaught exn

datatype fs_event = MakeDirs string | ToCsv string dataframe

text \<open>
  The file system of a run: which directories exist, and whether creating a directory and
  opening a file for writing succeed (\<open>None\<close>) or raise.
\<close>

record filesystem =
  isdir :: "string \<Rightarrow> bool"
  makedirs :: "string \<Rightarrow> exn option"
  to_csv :: "string \<Rightarrow> exn option"

text \<open>
  What a run leaves: how it ended, the network events (task by task, in the order of
  completion), the changes to the file system and the lines printed.
\<close>

record run =
  ending :: ending
  net_events :: "event list"
  files :: "fs_event list"
  console :: "string list"

definition crash :: "exn \<Rightarrow> event list \<Rightarrow> fs_event list \<Rightarrow> run" where
  "crash e evs fs_evs = \<lparr>ending = Uncaught e, net_events = evs, files = fs_evs, console = []\<rparr>"

text \<open>Lines 61 to 80: the status column, the broken rows, the file and the summary.\<close>

definition report :: "args \<Rightarrow> dataframe \<Rightarrow> filesystem \<Rightarrow> event list \<Rightarrow> (nat \<times> pyobj) list \<Rightarrow> run" where
  "report a df fs evs results =
     (let df1 = setitem df ''IMAGE_STATUS''
                  (map (image_status (status_map results)) [0..<length (rows df)])
      in (case getitem df1 ''IMAGE_STATUS'' of
            None \<Rightarrow> crash (Exn ''KeyError'' OtherException) evs []
          | Some col \<Rightarrow>
              (let broken_df = select_rows df1 (map is_broken col);
                   d = dirname (args_output a);
                   needed = (\<not> isdir fs d \<and> d \<noteq> []);
                   made = (if needed then [MakeDirs d] else [])
               in (case (if needed then makedirs fs d else None) of
                     Some e \<Rightarrow> crash e evs []
                   | None \<Rightarrow>
                       (case to_csv fs (args_output a) of
                          Some e \<Rightarrow> crash e evs made
                        | None \<Rightarrow>
                            \<lparr>ending = Normal, net_events = evs,
                             files = made @ [ToCsv (args_output a) broken_df],
                             console = [''Checked '' @ dec (length (rows df)) @ '' rows.'',
                                        ''Broken rows: '' @ dec (length (rows broken_df)),
                                        ''Wrote: '' @ args_output a]\<rparr>)))))"

text \<open>
  \<open>main\<close> from line 44 on, given the parsed arguments, the table that \<open>read_csv\<close>
  returned, the file system, the network of each task and the scheduler's picks.
  The pool refuses a worker count below 1 with a \<open>ValueError\<close>. The tasks are all
  submitted before the first result is read, and leaving the \<open>with\<close> block waits for them,
  so their network events happen even when the loop is left by an exception.
\<close>

definition main :: "args \<Rightarrow> dataframe \<Rightarrow> filesystem \<Rightarrow> (nat \<Rightarrow> network) \<Rightarrow> nat list \<Rightarrow> run" where
  "main a df fs nets picks =
     (if args_column a \<notin> set (columns df) then
        \<lparr>ending = SystemExit (''Column '' @ [CHR 0x27] @ args_column a @ [CHR 0x27]
             @ '' not found. Columns: '' @ repr_list (columns df)),
         net_events = [], files = [], console = []\<rparr>
      else
        (case getitem df (args_column a) of
           None \<Rightarrow> crash (Exn ''KeyError'' OtherException) [] []
         | Some urls \<Rightarrow>
             (if args_workers a \<le> 0 then crash (Exn ''ValueError'' OtherException) [] []
              else
                (let task = (\<lambda>i url. check_one (nets i) url (args_timeout a));
                     evs = concat (map (\<lambda>(i, r, tr). tr) (completed task urls picks))
                 in (case dispatch task urls picks of
                       Inl e \<Rightarrow> crash e evs []
                     | Inr results \<Rightarrow> report a df fs evs results)))))"

section \<open>What a trace shows\<close>

text \<open>
  Readings of a list of events: the URLs requested, the methods used, the sleeps, and the
  number of attempts (each attempt starts with one HEAD).
\<close>

definition requested_urls :: "event list \<Rightarrow> string list" where
  "requested_urls tr = concat (map (\<lambda>ev. case ev of Request r \<Rightarrow> [r_url r] | Sleep d \<Rightarrow> []) tr)"

definition methods :: "event list \<Rightarrow> http_method list" where
  "methods tr = concat (map (\<lambda>ev. case ev of Request r \<Rightarrow> [r_method r] | Sleep d \<Rightarrow> []) tr)"

definition sleeps :: "event list \<Rightarrow> rat list" where
  "sleeps tr = concat (map (\<lambda>ev. case ev of Request r \<Rightarrow> [] | Sleep d \<Rightarrow> [d]) tr)"

definition attempts_made :: "event list \<Rightarrow> nat" where
  "attempts_made tr = length (filter (\<lambda>m. m = HEAD) (methods tr))"

text \<open>
  An attempt started after the events \<open>tr\<close> ends in a \<open>RequestException\<close>: raised by
  the HEAD, or by the GET that follows a HEAD whose status asks for one.
\<close>

definition attempt_fails :: "network \<Rightarrow> string \<Rightarrow> int \<Rightarrow> event list \<Rightarrow> bool" where
  "attempt_fails net url timeout tr =
     (case net tr (head_request url timeout) of
        Raises e \<Rightarrow> is_request_exception e
      | Status h \<Rightarrow> needs_get h \<and>
          (case net (tr @ [Request (head_request url timeout)]) (get_request url timeout) of
             Raises e \<Rightarrow> is_request_exception e
           | Status g \<Rightarrow> False))"

text \<open>
  The values the specification calls an Outcome: an integer status, \<open>"empty"\<close>, or a
  string that starts with \<open>"error: "\<close>.
\<close>

definition is_outcome :: "pyobj \<Rightarrow> bool" where
  "is_outcome r = (case r of PyInt n \<Rightarrow> True
     | PyStr s \<Rightarrow> s = ''empty'' \<or> (take 7 s = ''error: '')
     | _ \<Rightarrow> False)"

section \<open>Example networks\<close>

text \<open>
  A server that rejects HEAD with 405 and answers GET with 404; one that answers 404 to
  everything; a host that cannot be reached; and a transport that refuses the request with
  a \<open>ValueError\<close>, as it does for a timeout of 0 seconds.
\<close>

definition head_405_get_404 :: network where
  "head_405_get_404 tr r = (if r_method r = HEAD then Status 405 else Status 404)"
definition always_404 :: network where
  "always_404 tr r = Status 404"
definition connection_error :: network where
  "connection_error tr r = Raises (Exn ''ConnectionError'' RequestException)"
definition value_error :: network where
  "value_error tr r = Raises (Exn ''ValueError'' OtherException)"


section \<open>Example tasks, tables and arguments\<close>

text \<open>
  A task that always returns 200, one whose second run raises a \<open>KeyError\<close> and one whose
  second run raises \<open>SystemExit\<close>; a network that knows one good URL, and one whose second
  task meets \<open>SystemExit\<close>; a table of three rows,
  and one that already has a status column, as the output of an earlier run has; the default
  arguments; a file system without directories in which everything can be written, and one
  in which nothing can.
\<close>

definition always_200_task :: task where
  "always_200_task i url = (Inr (PyInt 200), [])"

definition faulty_task :: task where
  "faulty_task i url =
     (if i = 1 then (Inl (Exn ''KeyError'' OtherException), []) else (Inr (PyInt 200), []))"

definition exiting_task :: task where
  "exiting_task i url =
     (if i = 1 then (Inl (Exn ''SystemExit'' NonException), []) else (Inr (PyInt 200), []))"

definition by_url :: "nat \<Rightarrow> network" where
  "by_url i tr r = (if r_url r = ''http://a.test/ok.png'' then Status 200 else Status 404)"

definition exiting_network :: "nat \<Rightarrow> network" where
  "exiting_network i tr r =
     (if i = 1 then Raises (Exn ''SystemExit'' NonException) else Status 200)"

definition three_rows :: dataframe where
  "three_rows = \<lparr>columns = [''SKU'', ''IMAGE_URLS''],
     rows = [[PyInt 1, PyStr ''http://a.test/ok.png''],
             [PyInt 2, PyStr ''http://a.test/missing.png''],
             [PyInt 3, PyStr '''']]\<rparr>"

definition rerun_table :: dataframe where
  "rerun_table = \<lparr>columns = [''IMAGE_URLS'', ''IMAGE_STATUS''],
     rows = [[PyStr ''http://a.test/missing.png'', PyInt 500]]\<rparr>"

definition default_args :: args where
  "default_args = \<lparr>args_input = ''in.csv'', args_output = ''out.csv'', args_column = ''IMAGE_URLS'',
     args_workers = MAX_WORKERS, args_timeout = DEFAULT_TIMEOUT\<rparr>"

definition no_directory :: filesystem where
  "no_directory = \<lparr>isdir = (\<lambda>d. False), makedirs = (\<lambda>d. None), to_csv = (\<lambda>p. None)\<rparr>"

definition read_only :: filesystem where
  "read_only = \<lparr>isdir = (\<lambda>d. False), makedirs = (\<lambda>d. Some (Exn ''PermissionError'' OtherException)),
     to_csv = (\<lambda>p. Some (Exn ''PermissionError'' OtherException))\<rparr>"

section \<open>Properties\<close>

lemma range_retries: "[0..<RETRIES + 1] = [0, 1, 2]"
  by (simp add: RETRIES_def upt_rec)

lemma is_request_exception_Exn [simp]: "is_request_exception (Exn n c) = (c = RequestException)"
  by (simp add: is_request_exception_def)

lemma is_exception_Exn [simp]: "is_exception (Exn n c) = (c \<noteq> NonException)"
  by (simp add: is_exception_def)

subsection \<open>Traces of the retry loop\<close>

lemma requested_urls_append [simp]: "requested_urls (xs @ ys) = requested_urls xs @ requested_urls ys"
  by (simp add: requested_urls_def)
lemma methods_append [simp]: "methods (xs @ ys) = methods xs @ methods ys"
  by (simp add: methods_def)
lemma sleeps_append [simp]: "sleeps (xs @ ys) = sleeps xs @ sleeps ys"
  by (simp add: sleeps_def)
lemma attempts_made_append [simp]: "attempts_made (xs @ ys) = attempts_made xs + attempts_made ys"
  by (simp add: attempts_made_def)

lemma try_body_trace:
  "\<exists>evs. snd (try_body net url timeout tr) = tr @ evs \<and> set (requested_urls evs) \<subseteq> {url}
      \<and> sleeps evs = [] \<and> attempts_made evs = 1"
  by (auto simp: try_body_def requested_urls_def sleeps_def attempts_made_def methods_def
        head_request_def get_request_def split: response.splits)

lemma try_body_raised:
  "try_body net url timeout tr = (Inl e, tr') \<Longrightarrow> \<exists>pre r. tr' = pre @ [Request r] \<and> net pre r = Raises e"
  by (auto simp: try_body_def split: response.splits if_splits)

lemma try_body_fails:
  "attempt_fails net url timeout tr \<Longrightarrow>
     \<exists>e. fst (try_body net url timeout tr) = Inl e \<and> is_request_exception e"
  by (auto simp: try_body_def attempt_fails_def split: response.splits)

lemma retry_loop_urls:
  "\<exists>evs. snd (retry_loop net url timeout atts tr) = tr @ evs \<and> set (requested_urls evs) \<subseteq> {url}"
proof (induction atts arbitrary: tr)
  case Nil
  then show ?case by (simp add: requested_urls_def)
next
  case (Cons a atts)
  obtain res tr' where tb: "try_body net url timeout tr = (res, tr')" by (cases "try_body net url timeout tr")
  obtain evs where evs: "tr' = tr @ evs" "set (requested_urls evs) \<subseteq> {url}"
    using try_body_trace[of net url timeout tr] tb by auto
  show ?case
  proof (cases res)
    case (Inr s)
    then show ?thesis using tb evs by auto
  next
    case (Inl e)
    show ?thesis
    proof (cases "is_request_exception e \<and> a < RETRIES")
      case False
      then show ?thesis using tb evs Inl by auto
    next
      case True
      obtain evs2 where "snd (retry_loop net url timeout atts (tr' @ [Sleep ((1 / 2) * (of_nat a + 1))]))
          = (tr' @ [Sleep ((1 / 2) * (of_nat a + 1))]) @ evs2" "set (requested_urls evs2) \<subseteq> {url}"
        using Cons.IH by blast
      then have "snd (retry_loop net url timeout (a # atts) tr) = tr @ (evs @ [Sleep ((1 / 2) * (of_nat a + 1))] @ evs2)
          \<and> set (requested_urls (evs @ [Sleep ((1 / 2) * (of_nat a + 1))] @ evs2)) \<subseteq> {url}"
        using tb evs Inl True by (auto simp: requested_urls_def)
      then show ?thesis by blast
    qed
  qed
qed

lemma retry_loop_result:
  "atts \<noteq> [] \<Longrightarrow> \<not> last atts < RETRIES \<Longrightarrow>
     (case fst (retry_loop net url timeout atts tr) of
        Inr r \<Rightarrow> is_outcome r
      | Inl e \<Rightarrow> \<not> is_request_exception e \<and> (\<exists>pre r. net pre r = Raises e))"
proof (induction atts arbitrary: tr)
  case Nil
  then show ?case by simp
next
  case (Cons a atts)
  obtain res tr' where tb: "try_body net url timeout tr = (res, tr')" by (cases "try_body net url timeout tr")
  show ?case
  proof (cases res)
    case (Inr s)
    then show ?thesis using tb by (simp add: is_outcome_def)
  next
    case (Inl e)
    have raised: "\<exists>pre r. net pre r = Raises e" using try_body_raised tb Inl by blast
    show ?thesis
    proof (cases "is_request_exception e")
      case False
      then show ?thesis using tb Inl raised by simp
    next
      case True
      show ?thesis
      proof (cases "a < RETRIES")
        case False
        then show ?thesis using tb Inl True by (simp add: is_outcome_def)
      next
        case lt: True
        then have "atts \<noteq> []" using Cons.prems by auto
        moreover have "\<not> last atts < RETRIES" using Cons.prems \<open>atts \<noteq> []\<close> by simp
        ultimately show ?thesis using Cons.IH tb Inl True lt by simp
      qed
    qed
  qed
qed

lemma try_body_failing_step:
  assumes "attempt_fails net url timeout tr"
  shows "\<exists>e evs. try_body net url timeout tr = (Inl e, tr @ evs) \<and> is_request_exception e
           \<and> sleeps evs = [] \<and> attempts_made evs = 1
           \<and> (\<exists>pre r. tr @ evs = pre @ [Request r] \<and> net pre r = Raises e)"
proof -
  obtain e where e: "fst (try_body net url timeout tr) = Inl e" "is_request_exception e"
    using try_body_fails [OF assms] by blast
  obtain evs where evs: "snd (try_body net url timeout tr) = tr @ evs" "sleeps evs = []" "attempts_made evs = 1"
    using try_body_trace [of net url timeout tr] by blast
  have tb: "try_body net url timeout tr = (Inl e, tr @ evs)"
    using e(1) evs(1) by (simp add: prod_eq_iff)
  from try_body_raised [OF tb] e(2) evs tb show ?thesis by blast
qed


lemma last_dropWhile_ne: "dropWhile P xs \<noteq> [] \<Longrightarrow> last (dropWhile P xs) = last xs"
proof -
  assume ne: "dropWhile P xs \<noteq> []"
  have "last xs = last (takeWhile P xs @ dropWhile P xs)" by simp
  also have "\<dots> = last (dropWhile P xs)" using ne by (simp only: last_append if_False)
  finally show ?thesis by simp
qed

lemma strip_trimmed:
  "strip s \<noteq> [] \<Longrightarrow> \<not> isspace (hd (strip s)) \<and> \<not> isspace (last (strip s))"
proof -
  assume ne: "strip s \<noteq> []"
  let ?a = "dropWhile isspace s"
  let ?b = "dropWhile isspace (rev ?a)"
  have b: "?b \<noteq> []" using ne by (simp add: strip_def)
  then have hb: "\<not> isspace (hd ?b)" by (rule hd_dropWhile)
  have a: "?a \<noteq> []" using b by (cases "?a") simp_all
  then have ha: "\<not> isspace (hd ?a)" by (rule hd_dropWhile)
  have l: "last (strip s) = hd ?b" using b by (simp add: strip_def last_rev)
  have "hd (strip s) = last ?b" using b by (simp add: strip_def hd_rev)
  also have "\<dots> = last (rev ?a)" using b by (rule last_dropWhile_ne)
  also have "\<dots> = hd ?a" using a by (simp add: last_rev)
  finally show ?thesis using ha hb l by simp
qed

lemma first_request:
  "\<exists>evs. snd (retry_loop net url timeout (a # atts) []) = Request (head_request url timeout) # evs"
proof -
  obtain res tr' where tb: "try_body net url timeout [] = (res, tr')" by (cases "try_body net url timeout []")
  then obtain evs where tr': "tr' = Request (head_request url timeout) # evs"
    by (auto simp: try_body_def split: response.splits if_splits)
  show ?thesis
  proof (cases "\<exists>e. res = Inl e \<and> is_request_exception e \<and> a < RETRIES")
    case False
    then show ?thesis using tb tr' by (cases res) auto
  next
    case True
    then obtain e where e: "res = Inl e" "is_request_exception e" "a < RETRIES" by blast
    obtain evs2 where "snd (retry_loop net url timeout atts (tr' @ [Sleep ((1 / 2) * (of_nat a + 1))]))
        = (tr' @ [Sleep ((1 / 2) * (of_nat a + 1))]) @ evs2"
      using retry_loop_urls by blast
    then show ?thesis using tb tr' e by simp
  qed
qed


lemma check_one_cases:
  "case fst (check_one net url timeout) of
      Inr r \<Rightarrow> is_outcome r
    | Inl e \<Rightarrow> \<not> is_request_exception e \<and> (\<exists>pre r. net pre r = Raises e)"
proof (cases url)
  case (PyStr s)
  show ?thesis
  proof (cases "strip s = []")
    case True
    then show ?thesis using PyStr by (simp add: check_one_def is_outcome_def)
  next
    case False
    then have "check_one net url timeout = retry_loop net (strip s) timeout [0, 1, 2] []"
      using PyStr by (simp only: check_one_def range_retries pyobj.case if_False)
    moreover have "case fst (retry_loop net (strip s) timeout [0, 1, 2] []) of
        Inr r \<Rightarrow> is_outcome r
      | Inl e \<Rightarrow> \<not> is_request_exception e \<and> (\<exists>pre r. net pre r = Raises e)"
      by (rule retry_loop_result) (simp_all add: RETRIES_def)
    ultimately show ?thesis by simp
  qed
qed (simp_all add: check_one_def is_outcome_def)

subsection \<open>The dispatcher and the table\<close>

lemma future_status_outcome:
  "future_status (fst (check_one net url timeout)) = Inr s \<Longrightarrow> is_outcome s"
  using check_one_cases [of net url timeout]
  by (cases "fst (check_one net url timeout)")
     (auto simp: future_status_def is_outcome_def split: if_splits)

lemma future_status_Inl:
  "future_status r = Inl e \<longleftrightarrow> r = Inl e \<and> \<not> is_exception e"
  by (cases r) (auto simp: future_status_def)

lemma future_status_caught:
  "\<not> isl (future_status r) \<longleftrightarrow> (\<forall>e. r = Inl e \<longrightarrow> is_exception e)"
  by (cases r) (auto simp: future_status_def)

lemma mset_as_completed: "mset (as_completed picks fs) = mset fs"
proof (induction picks fs rule: as_completed.induct)
  case (3 k picks f fs)
  let ?xs = "f # fs"
  let ?j = "k mod Suc (length fs)"
  have j: "?j < length ?xs" by simp
  have "mset ?xs = mset (take ?j ?xs @ ?xs ! ?j # drop (Suc ?j) ?xs)"
    using id_take_nth_drop [OF j] by simp
  then have "mset ?xs = add_mset (?xs ! ?j) (mset (take ?j ?xs @ drop (Suc ?j) ?xs))"
    by simp
  then show ?case using 3 by simp
qed simp_all

lemma collect_Inr:
  "collect fs acc = Inr results \<Longrightarrow>
     results = acc @ map (\<lambda>(i, r, tr). (i, projr (future_status r))) fs
     \<and> list_all (\<lambda>(i, r, tr). \<not> isl (future_status r)) fs"
proof (induction fs acc rule: collect.induct)
  case (1 results)
  then show ?case by simp
next
  case (2 i r tr futures acc)
  then show ?case by (cases "future_status r") auto
qed

lemma collect_caught:
  "list_all (\<lambda>(i, r, tr). \<not> isl (future_status r)) fs \<Longrightarrow>
     collect fs acc = Inr (acc @ map (\<lambda>(i, r, tr). (i, projr (future_status r))) fs)"
proof (induction fs acc rule: collect.induct)
  case (1 results)
  then show ?case by simp
next
  case (2 i r tr futures acc)
  then show ?case by (cases "future_status r") auto
qed

lemma collect_Inl:
  "collect fs acc = Inl e \<Longrightarrow> \<exists>i r tr. (i, r, tr) \<in> set fs \<and> future_status r = Inl e"
proof (induction fs acc rule: collect.induct)
  case (1 results)
  then show ?case by simp
next
  case (2 i r tr futures acc)
  then show ?case by (cases "future_status r") auto
qed

lemma submit_all_eq:
  "submit_all task urls = map (\<lambda>i. (i, task i (urls ! i))) [0..<length urls]"
  by (auto simp: submit_all_def enumerate_eq_zip intro!: nth_equalityI)

lemma set_completed:
  "set (completed task urls picks) = (\<lambda>i. (i, task i (urls ! i))) ` {0..<length urls}"
proof -
  have "set (completed task urls picks) = set (submit_all task urls)"
    unfolding completed_def by (rule mset_eq_setD) (rule mset_as_completed)
  then show ?thesis by (simp add: submit_all_eq)
qed

lemma all_caught_completed:
  "list_all (\<lambda>(i, r, tr). \<not> isl (future_status r)) (completed task urls picks)
     \<longleftrightarrow> (\<forall>i<length urls. \<not> isl (future_status (fst (task i (urls ! i)))))"
  by (auto simp: list_all_iff set_completed case_prod_beta)

lemma dispatch_completes:
  "(\<exists>results. dispatch task urls picks = Inr results)
     \<longleftrightarrow> (\<forall>i<length urls. \<not> isl (future_status (fst (task i (urls ! i)))))"
  unfolding dispatch_def
  using collect_Inr [of "completed task urls picks" "[]"]
    collect_caught [of "completed task urls picks" "[]"]
    all_caught_completed [of task urls picks]
  by blast

lemma mset_dispatch:
  assumes "dispatch task urls picks = Inr results"
  shows "mset results
     = mset (map (\<lambda>i. (i, projr (future_status (fst (task i (urls ! i)))))) [0..<length urls])"
proof -
  have "results = map (\<lambda>(i, r, tr). (i, projr (future_status r))) (completed task urls picks)"
    using collect_Inr [of "completed task urls picks" "[]" results] assms by (simp add: dispatch_def)
  then have "mset results
      = image_mset (\<lambda>(i, r, tr). (i, projr (future_status r))) (mset (submit_all task urls))"
    by (simp add: completed_def mset_as_completed)
  then show ?thesis
    by (simp add: submit_all_eq image_mset.compositionality comp_def prod_eq_iff case_prod_beta)
qed

lemma mset_dispatch_keys:
  assumes "dispatch task urls picks = Inr results"
  shows "mset (map fst results) = mset [0..<length urls]"
proof -
  have "mset (map fst results) = image_mset fst (mset results)" by simp
  also have "\<dots> = mset [0..<length urls]"
    by (simp only: mset_dispatch [OF assms]) (simp add: image_mset.compositionality comp_def del: mset_upt)
  finally show ?thesis .
qed

lemma distinct_dispatch_keys:
  "dispatch task urls picks = Inr results \<Longrightarrow> distinct (map fst results)"
  using mset_dispatch_keys [of task urls picks results] by (metis distinct_upt mset_eq_imp_distinct_iff)

lemma length_dispatch:
  assumes "dispatch task urls picks = Inr results"
  shows "length results = length urls"
proof -
  have "size (mset results) = length urls"
    by (simp only: mset_dispatch [OF assms]) simp
  then show ?thesis by simp
qed

lemma status_map_fold:
  "fold (\<lambda>(i, s) m. m(i \<mapsto> s)) results m0 = m0 ++ map_of (rev results)"
  by (induction results arbitrary: m0) (auto simp: map_add_def fun_eq_iff split: option.splits)

lemma status_map_map_of:
  assumes "distinct (map fst results)"
  shows "status_map results = map_of results"
proof -
  have "distinct (map fst (rev results))" using assms by (simp add: rev_map [symmetric])
  then have "map_of (rev results) = map_of results"
    using assms by (simp add: map_of_inject_set)
  then show ?thesis by (simp add: status_map_def status_map_fold)
qed

lemma status_map_dispatch:
  assumes "dispatch task urls picks = Inr results"
  shows "status_map results i
     = (if i < length urls then Some (projr (future_status (fst (task i (urls ! i))))) else None)"
proof -
  let ?ys = "map (\<lambda>i. (i, projr (future_status (fst (task i (urls ! i)))))) [0..<length urls]"
  have d: "distinct (map fst ?ys)" by (simp add: comp_def)
  have "set results = set ?ys"
    using mset_dispatch [OF assms] by (rule mset_eq_setD)
  then have "map_of results = map_of ?ys"
    using distinct_dispatch_keys [OF assms] d by (simp add: map_of_inject_set)
  then have "status_map results i = map_of ?ys i"
    by (simp add: status_map_map_of distinct_dispatch_keys [OF assms])
  also have "\<dots> = (if i < length urls then Some (projr (future_status (fst (task i (urls ! i))))) else None)"
    by (simp add: map_of_map_restrict restrict_map_def)
  finally show ?thesis .
qed

lemma status_map_dispatch_Inr:
  assumes "dispatch task urls picks = Inr results" and "i < length urls"
  shows "map_option Inr (status_map results i) = Some (future_status (fst (task i (urls ! i))))"
proof -
  have "\<not> isl (future_status (fst (task i (urls ! i))))"
    using dispatch_completes [of task urls picks] assms by blast
  then have "Inr (projr (future_status (fst (task i (urls ! i))))) = future_status (fst (task i (urls ! i)))"
    by (cases "future_status (fst (task i (urls ! i)))") simp_all
  then show ?thesis by (simp add: status_map_dispatch [OF assms(1)] assms(2))
qed

lemma dispatch_Inl:
  assumes "dispatch task urls picks = Inl e"
  shows "\<exists>i<length urls. fst (task i (urls ! i)) = Inl e \<and> \<not> is_exception e"
proof -
  obtain i r tr where "(i, r, tr) \<in> set (completed task urls picks)" "future_status r = Inl e"
    using collect_Inl assms unfolding dispatch_def by blast
  then obtain j where "j < length urls" "task j (urls ! j) = (r, tr)" "r = Inl e" "\<not> is_exception e"
    by (auto simp: set_completed future_status_Inl)
  then have "j < length urls \<and> fst (task j (urls ! j)) = Inl e \<and> \<not> is_exception e" by simp
  then show ?thesis by blast
qed

lemma index_of_None: "c \<notin> set xs \<Longrightarrow> index_of c xs = None"
  by (induction xs) auto


lemma index_of_in_set: "index_of c xs = Some k \<Longrightarrow> c \<in> set xs"
  by (induction xs arbitrary: k) (auto split: if_splits)




lemma getitem_in_columns: "getitem df c = Some vals \<Longrightarrow> c \<in> set (columns df)"
  by (auto simp: getitem_def dest: index_of_in_set)








text \<open>The run of \<open>main\<close> once the column is there, the pool starts and the loop completes.\<close>

lemma main_report:
  assumes "getitem df (args_column a) = Some urls" and "0 < args_workers a"
    and "dispatch (\<lambda>i url. check_one (nets i) url (args_timeout a)) urls picks = Inr results"
  shows "main a df fs nets picks
     = report a df fs (concat (map (\<lambda>(i, r, tr). tr)
         (completed (\<lambda>i url. check_one (nets i) url (args_timeout a)) urls picks))) results"
  using assms getitem_in_columns [OF assms(1)] by (simp add: main_def Let_def)

lemma main_abort:
  assumes "getitem df (args_column a) = Some urls" and "0 < args_workers a"
    and "dispatch (\<lambda>i url. check_one (nets i) url (args_timeout a)) urls picks = Inl e"
  shows "ending (main a df fs nets picks) = Uncaught e \<and> files (main a df fs nets picks) = []
     \<and> console (main a df fs nets picks) = []"
  using assms getitem_in_columns [OF assms(1)] by (simp add: main_def Let_def crash_def)

text \<open>A run in which the output cannot be written ends with that exception.\<close>

lemma unwritable_output_example:
  "ending (main default_args rerun_table read_only by_url [])
     = Uncaught (Exn ''PermissionError'' OtherException)
   \<and> files (main default_args rerun_table read_only by_url []) = []
   \<and> console (main default_args rerun_table read_only by_url []) = []"
proof -
  have c1: "check_one (by_url 0) (PyStr ''http://a.test/missing.png'') 10
      = (Inr (PyInt 404), [Request (head_request ''http://a.test/missing.png'' 10)])"
    unfolding check_one_def range_retries
    by (simp add: strip_def isspace_def try_body_def by_url_def needs_get_def head_request_def)
  have d: "dirname ''out.csv'' = []" by (simp add: dirname_def)
  have r: "dispatch (\<lambda>i url. check_one (by_url i) url 10) [PyStr ''http://a.test/missing.png''] []
      = Inr [(0, PyInt 404)]"
    by (simp add: dispatch_def completed_def submit_all_def c1 future_status_def)
  show ?thesis
    by (simp add: main_def report_def rerun_table_def default_args_def getitem_def setitem_def
          Let_def r d MAX_WORKERS_def DEFAULT_TIMEOUT_def status_map_def image_status_def
          select_rows_def is_broken_def completed_def submit_all_def c1 read_only_def crash_def)
qed

subsection \<open>The probe\<close>

text \<open>
  C1: in an attempt whose HEAD answers with a status, a GET follows exactly when that status
  is 405 or is at least 400 and not 404; then the status of the GET is returned, otherwise
  that of the HEAD. The loop returns at once, whatever the status, and the events end with
  that request. \<open>check_one\<close> on a string that is not blank is this loop on the stripped
  string, with attempts 0, 1 and 2.
\<close>

theorem head_then_get:
  assumes "net tr (head_request url timeout) = Status h"
  shows "needs_get h = (h = 405 \<or> (400 \<le> h \<and> h \<noteq> 404))
    \<and> (\<not> needs_get h \<longrightarrow>
          retry_loop net url timeout (attempt # rest) tr
            = (Inr (PyInt h), tr @ [Request (head_request url timeout)]))
    \<and> (needs_get h \<longrightarrow> net (tr @ [Request (head_request url timeout)]) (get_request url timeout) = Status g \<longrightarrow>
          retry_loop net url timeout (attempt # rest) tr
            = (Inr (PyInt g), tr @ [Request (head_request url timeout), Request (get_request url timeout)]))
    \<and> (strip s \<noteq> [] \<longrightarrow> check_one net (PyStr s) timeout = retry_loop net (strip s) timeout [0, 1, 2] [])"
proof (intro conjI impI)
  show "needs_get h = (h = 405 \<or> (400 \<le> h \<and> h \<noteq> 404))"
    by (simp add: needs_get_def)
next
  assume "\<not> needs_get h"
  then show "retry_loop net url timeout (attempt # rest) tr
      = (Inr (PyInt h), tr @ [Request (head_request url timeout)])"
    using assms by (simp add: try_body_def)
next
  assume "needs_get h"
    and "net (tr @ [Request (head_request url timeout)]) (get_request url timeout) = Status g"
  then show "retry_loop net url timeout (attempt # rest) tr
      = (Inr (PyInt g), tr @ [Request (head_request url timeout), Request (get_request url timeout)])"
    using assms by (simp add: try_body_def)
next
  assume "strip s \<noteq> []"
  then show "check_one net (PyStr s) timeout = retry_loop net (strip s) timeout [0, 1, 2] []"
    by (simp only: check_one_def range_retries pyobj.case if_False)
qed

theorem head_then_get_witness:
  "check_one head_405_get_404 (PyStr ''http://a.test/x.png'') 10
     = (Inr (PyInt 404), [Request (head_request ''http://a.test/x.png'' 10),
                          Request (get_request ''http://a.test/x.png'' 10)])
   \<and> check_one always_404 (PyStr ''http://a.test/x.png'') 10
     = (Inr (PyInt 404), [Request (head_request ''http://a.test/x.png'' 10)])"
proof -
  have s: "strip ''http://a.test/x.png'' = ''http://a.test/x.png''"
    by (simp add: strip_def isspace_def)
  have h1: "head_405_get_404 [] (head_request ''http://a.test/x.png'' 10) = Status 405"
    by (simp add: head_405_get_404_def head_request_def)
  have g1: "head_405_get_404 ([] @ [Request (head_request ''http://a.test/x.png'' 10)])
      (get_request ''http://a.test/x.png'' 10) = Status 404"
    by (simp add: head_405_get_404_def get_request_def)
  have h2: "always_404 [] (head_request ''http://a.test/x.png'' 10) = Status 404"
    by (simp add: always_404_def)
  show ?thesis
    using head_then_get [of head_405_get_404 "[]" "''http://a.test/x.png''" 10 405 0 "[1, 2]" 404 "''http://a.test/x.png''"]
      head_then_get [of always_404 "[]" "''http://a.test/x.png''" 10 404 0 "[1, 2]" 0 "''http://a.test/x.png''"]
      h1 h2 g1 s
    by (simp add: needs_get_def)
qed

text \<open>
  C2: \<open>is_broken\<close> holds of an integer status exactly when it is at least 400, and of
  \<open>"empty"\<close> and of every \<open>"error: <kind>"\<close>.
\<close>

theorem is_broken_classifies:
  "is_broken (PyInt s) = (400 \<le> s) \<and> is_broken (PyStr ''empty'')
     \<and> is_broken (PyStr (''error: '' @ k))"
  by (simp add: is_broken_def)


text \<open>
  C3: when every attempt on a non-blank URL ends in a \<open>RequestException\<close>, the probe makes
  three attempts with a sleep of 1/2 second after the first and of 1 second after the second,
  and returns \<open>"error: "\<close> followed by the type name of the exception that the last call
  raised.
\<close>

theorem retry_bound:
  assumes "strip s \<noteq> []" and "\<And>tr. attempt_fails net (strip s) timeout tr"
  shows "\<exists>e evs1 evs2 evs3.
           check_one net (PyStr s) timeout
             = (Inr (PyStr (''error: '' @ type_name e)), evs1 @ [Sleep (1 / 2)] @ evs2 @ [Sleep 1] @ evs3)
         \<and> attempts_made evs1 = 1 \<and> sleeps evs1 = []
         \<and> attempts_made evs2 = 1 \<and> sleeps evs2 = []
         \<and> attempts_made evs3 = 1 \<and> sleeps evs3 = []
         \<and> is_request_exception e
         \<and> (\<exists>pre r. evs1 @ [Sleep (1 / 2)] @ evs2 @ [Sleep 1] @ evs3 = pre @ [Request r]
                \<and> net pre r = Raises e)"
proof -
  let ?u = "strip s"
  obtain e1 evs1 where 1: "try_body net ?u timeout [] = (Inl e1, [] @ evs1)" "is_request_exception e1"
      "sleeps evs1 = []" "attempts_made evs1 = 1"
    using try_body_failing_step [OF assms(2), of "[]"] by blast
  let ?t1 = "evs1 @ [Sleep (1 / 2)]"
  obtain e2 evs2 where 2: "try_body net ?u timeout ?t1 = (Inl e2, ?t1 @ evs2)" "is_request_exception e2"
      "sleeps evs2 = []" "attempts_made evs2 = 1"
    using try_body_failing_step [OF assms(2), of ?t1] by blast
  let ?t2 = "?t1 @ evs2 @ [Sleep 1]"
  obtain e3 evs3 where 3: "try_body net ?u timeout ?t2 = (Inl e3, ?t2 @ evs3)" "is_request_exception e3"
      "sleeps evs3 = []" "attempts_made evs3 = 1"
      "\<exists>pre r. ?t2 @ evs3 = pre @ [Request r] \<and> net pre r = Raises e3"
    using try_body_failing_step [OF assms(2), of ?t2] by blast
  have "check_one net (PyStr s) timeout = retry_loop net ?u timeout [0, 1, 2] []"
    using assms(1) by (simp only: check_one_def range_retries pyobj.case if_False)
  also have "\<dots> = retry_loop net ?u timeout [1, 2] ?t1"
    using 1 by (simp add: RETRIES_def)
  also have "\<dots> = retry_loop net ?u timeout [2] ?t2"
    using 2 by (simp add: RETRIES_def)
  also have "\<dots> = (Inr (PyStr (''error: '' @ type_name e3)), ?t2 @ evs3)"
    using 3 by (simp add: RETRIES_def)
  finally have "check_one net (PyStr s) timeout
      = (Inr (PyStr (''error: '' @ type_name e3)), evs1 @ [Sleep (1 / 2)] @ evs2 @ [Sleep 1] @ evs3)"
    by simp
  moreover have "\<exists>pre r. evs1 @ [Sleep (1 / 2)] @ evs2 @ [Sleep 1] @ evs3 = pre @ [Request r] \<and> net pre r = Raises e3"
    using 3(5) by simp
  ultimately show ?thesis using 1 2 3 by blast
qed

theorem retry_bound_witness:
  "check_one connection_error (PyStr ''http://down.test/a.png'') 10
     = (Inr (PyStr ''error: ConnectionError''),
        [Request (head_request ''http://down.test/a.png'' 10), Sleep (1 / 2),
         Request (head_request ''http://down.test/a.png'' 10), Sleep 1,
         Request (head_request ''http://down.test/a.png'' 10)])"
proof -
  have s: "strip ''http://down.test/a.png'' = ''http://down.test/a.png''"
    by (simp add: strip_def isspace_def)
  have f: "\<And>tr. attempt_fails connection_error (strip ''http://down.test/a.png'') 10 tr"
    by (simp add: attempt_fails_def connection_error_def)
  have ne: "strip ''http://down.test/a.png'' \<noteq> []" by (simp add: s)
  have v: "check_one connection_error (PyStr ''http://down.test/a.png'') 10
     = (Inr (PyStr ''error: ConnectionError''),
        [Request (head_request ''http://down.test/a.png'' 10), Sleep (1 / 2),
         Request (head_request ''http://down.test/a.png'' 10), Sleep 1,
         Request (head_request ''http://down.test/a.png'' 10)])"
    unfolding check_one_def range_retries
    by (simp add: s try_body_def connection_error_def RETRIES_def)
  from retry_bound [OF ne f] v show ?thesis by simp
qed

text \<open>
  C4: a value that is not a string, the empty string and a string that is blank once stripped
  give \<open>"empty"\<close> with no event at all; for any other string every request carries the
  stripped string, which neither starts nor ends with white space.
\<close>

theorem blank_or_trimmed:
  "((\<forall>s. url \<noteq> PyStr s) \<longrightarrow> check_one net url timeout = (Inr (PyStr ''empty''), []))
   \<and> check_one net (PyStr []) timeout = (Inr (PyStr ''empty''), [])
   \<and> (strip s = [] \<longrightarrow> check_one net (PyStr s) timeout = (Inr (PyStr ''empty''), []))
   \<and> (strip s \<noteq> [] \<longrightarrow>
         set (requested_urls (snd (check_one net (PyStr s) timeout))) = {strip s}
         \<and> \<not> isspace (hd (strip s)) \<and> \<not> isspace (last (strip s)))"
proof (intro conjI impI)
  assume "\<forall>s. url \<noteq> PyStr s"
  then show "check_one net url timeout = (Inr (PyStr ''empty''), [])"
    by (cases url) (simp_all add: check_one_def)
next
  show "check_one net (PyStr []) timeout = (Inr (PyStr ''empty''), [])"
    by (simp add: check_one_def strip_def)
next
  assume "strip s = []"
  then show "check_one net (PyStr s) timeout = (Inr (PyStr ''empty''), [])"
    by (simp add: check_one_def)
next
  assume ne: "strip s \<noteq> []"
  have c: "check_one net (PyStr s) timeout = retry_loop net (strip s) timeout [0, 1, 2] []"
    using ne by (simp only: check_one_def range_retries pyobj.case if_False)
  obtain evs where "snd (retry_loop net (strip s) timeout [0, 1, 2] []) = [] @ evs"
      "set (requested_urls evs) \<subseteq> {strip s}"
    using retry_loop_urls by blast
  moreover obtain evs' where "snd (retry_loop net (strip s) timeout [0, 1, 2] [])
      = Request (head_request (strip s) timeout) # evs'"
    using first_request by blast
  ultimately show "set (requested_urls (snd (check_one net (PyStr s) timeout))) = {strip s}"
    using c by (auto simp: requested_urls_def head_request_def)
  show "\<not> isspace (hd (strip s))" using strip_trimmed [OF ne] by simp
  show "\<not> isspace (last (strip s))" using strip_trimmed [OF ne] by simp
qed

theorem blank_or_trimmed_witness:
  "check_one always_404 PyNaN 10 = (Inr (PyStr ''empty''), [])
   \<and> check_one always_404 (PyStr ''  '') 10 = (Inr (PyStr ''empty''), [])
   \<and> strip ''  http://a.test/x.png  '' = ''http://a.test/x.png''
   \<and> set (requested_urls (snd (check_one always_404 (PyStr ''  http://a.test/x.png  '') 10)))
        = {''http://a.test/x.png''}"
proof -
  have s: "strip ''  http://a.test/x.png  '' = ''http://a.test/x.png''"
    by (simp add: strip_def isspace_def)
  have b: "strip ''  '' = []"
    by (simp add: strip_def isspace_def)
  show ?thesis
    using blank_or_trimmed [of PyNaN always_404 10 "''  ''"]
      blank_or_trimmed [of PyNaN always_404 10 "''  http://a.test/x.png  ''"] s b
    by simp
qed


text \<open>
  C10, as amended: \<open>check_one\<close> never returns \<open>None\<close>. It returns an integer status,
  \<open>"empty"\<close> or a string that starts with \<open>"error: "\<close>, or else it lets through an
  exception that a network call raised and that is not a \<open>RequestException\<close>.
\<close>

theorem check_one_result:
  "(case fst (check_one net url timeout) of
      Inr r \<Rightarrow> is_outcome r
    | Inl e \<Rightarrow> \<not> is_request_exception e \<and> (\<exists>pre r. net pre r = Raises e))
   \<and> fst (check_one net url timeout) \<noteq> Inr PyNone"
proof -
  have 1: "case fst (check_one net url timeout) of
      Inr r \<Rightarrow> is_outcome r
    | Inl e \<Rightarrow> \<not> is_request_exception e \<and> (\<exists>pre r. net pre r = Raises e)"
    by (rule check_one_cases)
  then have "fst (check_one net url timeout) \<noteq> Inr PyNone"
    by (auto simp: is_outcome_def)
  with 1 show ?thesis by simp
qed

theorem check_one_result_witness:
  "fst (check_one head_405_get_404 (PyStr ''http://a.test/x.png'') 10) = Inr (PyInt 404)
   \<and> is_outcome (PyInt 404)"
proof -
  have v: "fst (check_one head_405_get_404 (PyStr ''http://a.test/x.png'') 10) = Inr (PyInt 404)"
    unfolding check_one_def range_retries
    by (simp add: strip_def isspace_def try_body_def head_405_get_404_def needs_get_def
          head_request_def get_request_def)
  from check_one_result [of head_405_get_404 "PyStr ''http://a.test/x.png''" 10] v
  show ?thesis by simp
qed


text \<open>
  The claim as first stated fails: with a transport that raises \<open>ValueError\<close> the call
  yields no value at all.
\<close>

theorem check_one_raises_counterexample:
  "fst (check_one value_error (PyStr ''http://a.test/x.png'') 0) = Inl (Exn ''ValueError'' OtherException)"
  unfolding check_one_def range_retries
  by (simp add: strip_def isspace_def try_body_def value_error_def)

subsection \<open>The dispatcher\<close>

text \<open>
  C5: when the loop over the futures completes, whatever their order of completion,
  \<open>results\<close> has one pair for each index below the number of URLs and no other, and the
  dictionary built from it has exactly these keys. The value at an index is the status that
  the task of that index returned, or the label of the exception it raised; with
  \<open>check_one\<close> as the task it is an integer status, \<open>"empty"\<close> or a string that starts
  with \<open>"error: "\<close>. A key that a dictionary lacks is read as \<open>"error: missing"\<close>.
\<close>

theorem result_set_complete:
  assumes "dispatch task urls picks = Inr results"
  shows "length results = length urls
   \<and> distinct (map fst results)
   \<and> set (map fst results) = {0..<length urls}
   \<and> dom (status_map results) = {0..<length urls}
   \<and> card (dom (status_map results)) = length urls
   \<and> (\<forall>i<length urls.
         map_option Inr (status_map results i) = Some (future_status (fst (task i (urls ! i)))))
   \<and> (task = (\<lambda>i url. check_one (nets i) url timeout) \<longrightarrow>
         (\<forall>i<length urls. \<exists>s. status_map results i = Some s \<and> is_outcome s))
   \<and> (m i = None \<longrightarrow> image_status m i = PyStr ''error: missing'')"
proof (intro conjI impI allI)
  show "length results = length urls" using assms by (rule length_dispatch)
  show "distinct (map fst results)" using assms by (rule distinct_dispatch_keys)
  show "set (map fst results) = {0..<length urls}"
    using mset_eq_setD [OF mset_dispatch_keys [OF assms]] by simp
  show d: "dom (status_map results) = {0..<length urls}"
    by (auto simp: dom_def status_map_dispatch [OF assms])
  show "card (dom (status_map results)) = length urls"
    by (simp add: d)
next
  fix i assume "i < length urls"
  with assms show "map_option Inr (status_map results i) = Some (future_status (fst (task i (urls ! i))))"
    by (rule status_map_dispatch_Inr)
next
  fix i assume t: "task = (\<lambda>i url. check_one (nets i) url timeout)" and i: "i < length urls"
  have "map_option Inr (status_map results i) = Some (future_status (fst (check_one (nets i) (urls ! i) timeout)))"
    using status_map_dispatch_Inr [OF assms i] by (simp add: t)
  then obtain s where s: "status_map results i = Some s"
      "future_status (fst (check_one (nets i) (urls ! i) timeout)) = Inr s"
    by (cases "status_map results i") auto
  then show "\<exists>s. status_map results i = Some s \<and> is_outcome s"
    using future_status_outcome by blast
next
  assume "m i = None"
  then show "image_status m i = PyStr ''error: missing''" by (simp add: image_status_def)
qed

theorem result_set_complete_witness:
  "dispatch (\<lambda>i url. check_one always_404 url 10) [PyStr ''http://a.test/x.png'', PyNaN] [1]
     = Inr [(1, PyStr ''empty''), (0, PyInt 404)]
   \<and> status_map [(1, PyStr ''empty''), (0, PyInt 404)] 0 = Some (PyInt 404)
   \<and> status_map [(1, PyStr ''empty''), (0, PyInt 404)] 1 = Some (PyStr ''empty'')
   \<and> dom (status_map [(1, PyStr ''empty''), (0, PyInt 404)]) = {0..<Suc (Suc 0)}
   \<and> image_status Map.empty 0 = PyStr ''error: missing''"
proof -
  have c: "check_one always_404 (PyStr ''http://a.test/x.png'') 10
      = (Inr (PyInt 404), [Request (head_request ''http://a.test/x.png'' 10)])"
    unfolding check_one_def range_retries
    by (simp add: strip_def isspace_def try_body_def always_404_def needs_get_def)
  have e: "check_one always_404 PyNaN 10 = (Inr (PyStr ''empty''), [])"
    by (simp add: check_one_def)
  have d: "dispatch (\<lambda>i url. check_one always_404 url 10) [PyStr ''http://a.test/x.png'', PyNaN] [1]
     = Inr [(1, PyStr ''empty''), (0, PyInt 404)]"
    by (simp add: dispatch_def completed_def submit_all_def c e future_status_def)
  show ?thesis
    using result_set_complete [OF d, of "\<lambda>i. always_404" 10 Map.empty 0] d
    by (simp add: status_map_def)
qed

text \<open>
  C6, as amended: when the task of index \<open>i\<close> raises an exception, and no task raises one
  that does not derive from \<open>Exception\<close>, the loop completes, the entry of \<open>i\<close> is
  \<open>"error: "\<close> followed by the type name of the exception, every index has the entry of
  its own task, and \<open>main\<close> goes on to lines 61 to 80 with these results.
\<close>

theorem task_fault_isolated:
  assumes "i < length urls" and "fst (task i (urls ! i)) = Inl e"
    and "\<forall>j<length urls. \<forall>e'. fst (task j (urls ! j)) = Inl e' \<longrightarrow> is_exception e'"
  shows "\<exists>results. dispatch task urls picks = Inr results
   \<and> length results = length urls
   \<and> status_map results i = Some (PyStr (''error: '' @ type_name e))
   \<and> (\<forall>j<length urls.
         map_option Inr (status_map results j) = Some (future_status (fst (task j (urls ! j)))))
   \<and> (task = (\<lambda>j url. check_one (nets j) url (args_timeout a)) \<longrightarrow>
         getitem df (args_column a) = Some urls \<longrightarrow> 0 < args_workers a \<longrightarrow>
         main a df fs nets picks
           = report a df fs (concat (map (\<lambda>(j, r, tr). tr) (completed task urls picks))) results)"
proof -
  have "\<forall>j<length urls. \<not> isl (future_status (fst (task j (urls ! j))))"
    using assms(3) by (simp add: future_status_caught)
  then obtain results where r: "dispatch task urls picks = Inr results"
    using dispatch_completes [of task urls picks] by blast
  have "is_exception e" using assms by blast
  then have "future_status (fst (task i (urls ! i))) = Inr (PyStr (''error: '' @ type_name e))"
    using assms(2) by (simp add: future_status_def)
  then have "status_map results i = Some (PyStr (''error: '' @ type_name e))"
    using status_map_dispatch_Inr [OF r assms(1)] by (cases "status_map results i") auto
  moreover have "length results = length urls" using r by (rule length_dispatch)
  moreover have "\<forall>j<length urls.
      map_option Inr (status_map results j) = Some (future_status (fst (task j (urls ! j))))"
    using status_map_dispatch_Inr [OF r] by blast
  moreover have "task = (\<lambda>j url. check_one (nets j) url (args_timeout a)) \<longrightarrow>
         getitem df (args_column a) = Some urls \<longrightarrow> 0 < args_workers a \<longrightarrow>
         main a df fs nets picks
           = report a df fs (concat (map (\<lambda>(j, r, tr). tr) (completed task urls picks))) results"
    using r main_report [of df a urls nets picks results fs] by auto
  ultimately show ?thesis using r by blast
qed

theorem task_fault_isolated_witness:
  "fst (faulty_task 1 ([PyNaN, PyNaN, PyNaN] ! 1)) = Inl (Exn ''KeyError'' OtherException)
   \<and> dispatch faulty_task [PyNaN, PyNaN, PyNaN] [2]
       = Inr [(2, PyInt 200), (0, PyInt 200), (1, PyStr ''error: KeyError'')]
   \<and> status_map [(2, PyInt 200), (0, PyInt 200), (1, PyStr ''error: KeyError'')] 1
       = Some (PyStr ''error: KeyError'')"
proof -
  have f: "fst (faulty_task 1 ([PyNaN, PyNaN, PyNaN] ! 1)) = Inl (Exn ''KeyError'' OtherException)"
    by (simp add: faulty_task_def)
  have l: "(1::nat) < length [PyNaN, PyNaN, PyNaN]" by simp
  have c: "\<forall>j<length [PyNaN, PyNaN, PyNaN]. \<forall>e'.
      fst (faulty_task j ([PyNaN, PyNaN, PyNaN] ! j)) = Inl e' \<longrightarrow> is_exception e'"
    by (auto simp: faulty_task_def)
  have d: "dispatch faulty_task [PyNaN, PyNaN, PyNaN] [2]
       = Inr [(2, PyInt 200), (0, PyInt 200), (1, PyStr ''error: KeyError'')]"
    by (simp add: dispatch_def completed_def submit_all_def faulty_task_def future_status_def)
  show ?thesis
    using task_fault_isolated [where i = 1 and urls = "[PyNaN, PyNaN, PyNaN]" and task = faulty_task
        and e = "Exn ''KeyError'' OtherException" and picks = "[2]" and nets = by_url
        and a = default_args and df = three_rows and fs = no_directory] l f c d
    by (simp add: status_map_def)
qed

text \<open>
  The claim as first stated fails: an exception that does not derive from \<open>Exception\<close> is
  not caught at line 57. It leaves the loop and ends the run, and no file is written.
\<close>

theorem uncaught_fault_counterexample:
  "dispatch exiting_task [PyNaN, PyNaN, PyNaN] [2] = Inl (Exn ''SystemExit'' NonException)
   \<and> ending (main default_args three_rows no_directory exiting_network [2, 0])
       = Uncaught (Exn ''SystemExit'' NonException)
   \<and> files (main default_args three_rows no_directory exiting_network [2, 0]) = []"
proof -
  have d: "dispatch exiting_task [PyNaN, PyNaN, PyNaN] [2] = Inl (Exn ''SystemExit'' NonException)"
    by (simp add: dispatch_def completed_def submit_all_def exiting_task_def future_status_def)
  have c0: "check_one (exiting_network 0) (PyStr ''http://a.test/ok.png'') 10
      = (Inr (PyInt 200), [Request (head_request ''http://a.test/ok.png'' 10)])"
    unfolding check_one_def range_retries
    by (simp add: strip_def isspace_def try_body_def exiting_network_def needs_get_def)
  have c1: "check_one (exiting_network (Suc 0)) (PyStr ''http://a.test/missing.png'') 10
      = (Inl (Exn ''SystemExit'' NonException), [Request (head_request ''http://a.test/missing.png'' 10)])"
    unfolding check_one_def range_retries
    by (simp add: strip_def isspace_def try_body_def exiting_network_def)
  have c2: "check_one (exiting_network (Suc (Suc 0))) (PyStr '''') 10 = (Inr (PyStr ''empty''), [])"
    by (simp add: check_one_def strip_def)
  have g: "getitem three_rows (args_column default_args)
      = Some [PyStr ''http://a.test/ok.png'', PyStr ''http://a.test/missing.png'', PyStr '''']"
    by (simp add: getitem_def three_rows_def default_args_def)
  have w: "0 < args_workers default_args" by (simp add: default_args_def MAX_WORKERS_def)
  have "dispatch (\<lambda>i url. check_one (exiting_network i) url (args_timeout default_args))
      [PyStr ''http://a.test/ok.png'', PyStr ''http://a.test/missing.png'', PyStr ''''] [2, 0]
      = Inl (Exn ''SystemExit'' NonException)"
    by (simp add: dispatch_def completed_def submit_all_def future_status_def default_args_def
          DEFAULT_TIMEOUT_def c0 c1 c2)
  from main_abort [OF g w this] d show ?thesis by simp
qed

text \<open>
  C9: whether the loop completes, and the dictionary built from \<open>results\<close> when it does,
  do not depend on the order in which the futures complete; with a task that always returns
  200 the loop completes and every index maps to 200.
\<close>

theorem dispatch_deterministic:
  "result_set (dispatch task urls picks) = result_set (dispatch task urls picks')
   \<and> result_set (dispatch always_200_task urls picks)
        = Some (\<lambda>i. if i < length urls then Some (PyInt 200) else None)"
proof
  show "result_set (dispatch task urls picks) = result_set (dispatch task urls picks')"
  proof (cases "\<forall>i<length urls. \<not> isl (future_status (fst (task i (urls ! i))))")
    case True
    then obtain r r' where r: "dispatch task urls picks = Inr r" and r': "dispatch task urls picks' = Inr r'"
      using dispatch_completes [of task urls picks] dispatch_completes [of task urls picks'] by blast
    have "status_map r = status_map r'"
      by (simp add: fun_eq_iff status_map_dispatch [OF r] status_map_dispatch [OF r'])
    then show ?thesis by (simp add: result_set_def r r')
  next
    case False
    then have "\<nexists>r. dispatch task urls picks = Inr r" and "\<nexists>r. dispatch task urls picks' = Inr r"
      using dispatch_completes [of task urls picks] dispatch_completes [of task urls picks'] by blast+
    then show ?thesis
      by (cases "dispatch task urls picks"; cases "dispatch task urls picks'") (simp_all add: result_set_def)
  qed
next
  have "\<forall>i<length urls. \<not> isl (future_status (fst (always_200_task i (urls ! i))))"
    by (simp add: always_200_task_def future_status_def)
  then obtain r where r: "dispatch always_200_task urls picks = Inr r"
    using dispatch_completes [of always_200_task urls picks] by blast
  have "status_map r = (\<lambda>i. if i < length urls then Some (PyInt 200) else None)"
    by (simp add: fun_eq_iff status_map_dispatch [OF r] always_200_task_def future_status_def)
  then show "result_set (dispatch always_200_task urls picks)
        = Some (\<lambda>i. if i < length urls then Some (PyInt 200) else None)"
    by (simp add: result_set_def r)
qed

theorem dispatch_deterministic_witness:
  "dispatch always_200_task [PyNaN, PyNaN] [1] = Inr [(1, PyInt 200), (0, PyInt 200)]
   \<and> dispatch always_200_task [PyNaN, PyNaN] [0] = Inr [(0, PyInt 200), (1, PyInt 200)]
   \<and> result_set (dispatch always_200_task [PyNaN, PyNaN] [1])
      = result_set (dispatch always_200_task [PyNaN, PyNaN] [0])"
proof -
  have "dispatch always_200_task [PyNaN, PyNaN] [1] = Inr [(1, PyInt 200), (0, PyInt 200)]"
    by (simp add: dispatch_def completed_def submit_all_def always_200_task_def future_status_def)
  moreover have "dispatch always_200_task [PyNaN, PyNaN] [0] = Inr [(0, PyInt 200), (1, PyInt 200)]"
    by (simp add: dispatch_def completed_def submit_all_def always_200_task_def future_status_def)
  ultimately show ?thesis
    using dispatch_deterministic [of always_200_task "[PyNaN, PyNaN]" "[1]" "[0]"] by simp
qed

subsection \<open>The report\<close>




text \<open>
  C8: when the table lacks the configured column, the run ends with \<open>SystemExit\<close> and a
  message that names the column and lists the columns of the table, having made no network
  call, written no file and printed nothing.
\<close>

theorem missing_column_aborts:
  assumes "args_column a \<notin> set (columns df)"
  shows "main a df fs nets picks
    = \<lparr>ending = SystemExit (''Column '' @ [CHR 0x27] @ args_column a @ [CHR 0x27]
          @ '' not found. Columns: '' @ repr_list (columns df)),
       net_events = [], files = [], console = []\<rparr>"
  using assms by (simp add: main_def)

theorem missing_column_aborts_witness:
  "main (default_args\<lparr>args_column := ''URL''\<rparr>) three_rows no_directory by_url []
    = \<lparr>ending = SystemExit (''Column '' @ [CHR 0x27] @ ''URL'' @ [CHR 0x27]
          @ '' not found. Columns: ['' @ [CHR 0x27] @ ''SKU'' @ [CHR 0x27] @ '', ''
          @ [CHR 0x27] @ ''IMAGE_URLS'' @ [CHR 0x27] @ '']''),
       net_events = [], files = [], console = []\<rparr>"
proof -
  have "args_column (default_args\<lparr>args_column := ''URL''\<rparr>) \<notin> set (columns three_rows)"
    by (simp add: three_rows_def)
  from missing_column_aborts [OF this, of no_directory by_url "[]"]
  show ?thesis
    by (simp add: three_rows_def repr_list_def repr_str_def repr_char_def Let_def)
qed

end
